theory Spec2Isabelle
  imports Complex_Main
begin

section \<open>mpris2controller: the player registry of \<open>controller.py\<close>\<close>

text \<open>
  The \<open>Controller\<close> object keeps two containers: \<open>self.playing\<close>, a Python set of bus
  connection names, and \<open>self.not_playing\<close>, a Python list whose last element is the player
  that stopped playing most recently. Every method below takes the registry and returns the
  registry the method leaves behind.
\<close>

record registry =
  playing :: "string set"
  not_playing :: "string list"

definition empty_registry :: registry where
  "empty_registry = \<lparr>playing = {}, not_playing = []\<rparr>"

datatype error = ValueError | TypeError | DBusException

text \<open>
  \<open>list.remove(x)\<close> of Python deletes the first occurrence of \<open>x\<close> and raises
  \<open>ValueError\<close> when there is none.
\<close>

definition list_remove :: "'a \<Rightarrow> 'a list \<Rightarrow> error + 'a list" where
  "list_remove x xs = (if x \<in> set xs then Inr (remove1 x xs) else Inl ValueError)"

text \<open>
  \<open>markas_playing\<close>: the \<open>try\<close> block holds only the \<open>list.remove\<close>, and its
  \<open>ValueError\<close> is swallowed; the membership test and \<open>set.add\<close> follow the block.
\<close>

definition markas_playing :: "string \<Rightarrow> registry \<Rightarrow> registry" where
  "markas_playing name st =
     (let st1 = (case list_remove name (not_playing st) of
                   Inr xs \<Rightarrow> st\<lparr>not_playing := xs\<rparr>
                 | Inl e \<Rightarrow> st)
      in if name \<notin> playing st1 then st1\<lparr>playing := insert name (playing st1)\<rparr> else st1)"

text \<open>\<open>markas_not_playing\<close>: \<open>set.discard\<close>, then \<open>list.append\<close> guarded by \<open>not in\<close>.\<close>

definition markas_not_playing :: "string \<Rightarrow> registry \<Rightarrow> registry" where
  "markas_not_playing name st =
     (let st1 = st\<lparr>playing := playing st - {name}\<rparr>
      in if name \<notin> set (not_playing st1)
         then st1\<lparr>not_playing := not_playing st1 @ [name]\<rparr> else st1)"

text \<open>
  \<open>remove\<close>: both statements sit inside the \<open>try\<close> block, the \<open>list.remove\<close> first. When it
  raises, control jumps to the handler and the \<open>set.discard\<close> after it is not executed.
\<close>

definition remove :: "string \<Rightarrow> registry \<Rightarrow> registry" where
  "remove name st =
     (case list_remove name (not_playing st) of
        Inr xs \<Rightarrow> st\<lparr>not_playing := xs, playing := playing st - {name}\<rparr>
      | Inl e \<Rightarrow> st)"

subsection \<open>Signal handlers\<close>

definition MPRIS_INTERFACE :: string where
  "MPRIS_INTERFACE = ''org.mpris.MediaPlayer2.Player''"

text \<open>
  The changed properties arrive as a dictionary; the handler reads one key of it and compares
  its value with a string. The third argument (the invalidated properties) is not read.
\<close>

definition handle_signal_properties_changed ::
  "string \<Rightarrow> (string \<rightharpoonup> string) \<Rightarrow> string list \<Rightarrow> string \<Rightarrow> registry \<Rightarrow> registry" where
  "handle_signal_properties_changed interface props sig sender st =
     (if interface = MPRIS_INTERFACE then
        (if ''PlaybackStatus'' \<in> dom props then
           (if props ''PlaybackStatus'' = Some ''Playing''
            then markas_playing sender st
            else markas_not_playing sender st)
         else st)
      else st)"

definition handle_signal_name_change :: "string \<Rightarrow> string \<Rightarrow> string \<Rightarrow> registry \<Rightarrow> registry" where
  "handle_signal_name_change name old_owner new_owner st =
     (if new_owner = [] then remove name st else st)"

subsection \<open>Sequences of registry calls\<close>

datatype registry_call = MarkPlaying string | MarkNotPlaying string | Remove string

fun apply_call :: "registry \<Rightarrow> registry_call \<Rightarrow> registry" where
  "apply_call st (MarkPlaying name) = markas_playing name st"
| "apply_call st (MarkNotPlaying name) = markas_not_playing name st"
| "apply_call st (Remove name) = remove name st"

definition run_calls :: "registry_call list \<Rightarrow> registry" where
  "run_calls cs = foldl apply_call empty_registry cs"

definition I1 :: "registry \<Rightarrow> bool" where
  "I1 st \<longleftrightarrow> playing st \<inter> set (not_playing st) = {}"

definition I2 :: "registry \<Rightarrow> bool" where
  "I2 st \<longleftrightarrow> distinct (not_playing st)"

section \<open>Command dispatch\<close>

text \<open>
  An outbound call is \<open>getattr(self.bus.get_object(n, MPRIS_PATH), method_name)()\<close>. The bus is
  the environment: \<open>bus n m\<close> holds when the call of method \<open>m\<close> on the player \<open>n\<close> returns, and
  fails when it raises \<open>DBusException\<close>. No dispatch method has a \<open>try\<close> block, so an
  exception leaves the method at once.

  A dispatch yields the calls it has issued, in order, each a pair of the player and the method
  name, and the exception that ended it, if any.
\<close>

type_synonym bus = "string \<Rightarrow> string \<Rightarrow> bool"

type_synonym outbound = "string \<times> string"

text \<open>The body of \<open>for n in self.playing\<close>, run over the names in the order the loop visits them.\<close>

fun call_each :: "bus \<Rightarrow> string list \<Rightarrow> string \<Rightarrow> outbound list \<times> error option" where
  "call_each bus [] method_name = ([], None)"
| "call_each bus (n # ns) method_name =
     (if bus n method_name
      then (case call_each bus ns method_name of (cs, r) \<Rightarrow> ((n, method_name) # cs, r))
      else ([(n, method_name)], Some DBusException))"

text \<open>
  A Python set has no order of its own, but a \<open>for\<close> loop over it visits its members one after
  another in some order. That order is the parameter \<open>visit\<close>: \<open>visit S\<close> lists the set \<open>S\<close> as
  the loop visits it.
\<close>

definition call_on_all_playing ::
  "bus \<Rightarrow> (string set \<Rightarrow> string list) \<Rightarrow> string \<Rightarrow> registry \<Rightarrow> outbound list \<times> error option" where
  "call_on_all_playing bus visit method_name st = call_each bus (visit (playing st)) method_name"

definition call_on_one_playing ::
  "bus \<Rightarrow> (string set \<Rightarrow> string list) \<Rightarrow> string \<Rightarrow> registry \<Rightarrow> outbound list \<times> error option" where
  "call_on_one_playing bus visit method_name st =
     (if card (playing st) = 1 then call_on_all_playing bus visit method_name st else ([], None))"

definition call_on_head_not_playing ::
  "bus \<Rightarrow> string \<Rightarrow> registry \<Rightarrow> outbound list \<times> error option" where
  "call_on_head_not_playing bus method_name st =
     (if length (not_playing st) > 0
      then (let n = last (not_playing st)
            in ([(n, method_name)], if bus n method_name then None else Some DBusException))
      else ([], None))"

text \<open>
  The three exported methods. They return what the dispatch did together with the registry
  after the call; none of them assigns to \<open>self.playing\<close> or \<open>self.not_playing\<close>.
\<close>

definition PlayPause ::
  "bus \<Rightarrow> (string set \<Rightarrow> string list) \<Rightarrow> registry \<Rightarrow> (outbound list \<times> error option) \<times> registry" where
  "PlayPause bus visit st =
     (if card (playing st) > 0
      then (call_on_all_playing bus visit ''Pause'' st, st)
      else (call_on_head_not_playing bus ''Play'' st, st))"

definition Next ::
  "bus \<Rightarrow> (string set \<Rightarrow> string list) \<Rightarrow> registry \<Rightarrow> (outbound list \<times> error option) \<times> registry" where
  "Next bus visit st = (call_on_one_playing bus visit ''Next'' st, st)"

definition Previous ::
  "bus \<Rightarrow> (string set \<Rightarrow> string list) \<Rightarrow> registry \<Rightarrow> (outbound list \<times> error option) \<times> registry" where
  "Previous bus visit st = (call_on_one_playing bus visit ''Previous'' st, st)"

definition issued :: "(outbound list \<times> error option) \<times> registry \<Rightarrow> outbound list" where
  "issued r = fst (fst r)"

text \<open>
  \<open>visits ns S\<close>: the list \<open>ns\<close> is an iteration of the set \<open>S\<close>, every member once.
\<close>

definition visits :: "string list \<Rightarrow> string set \<Rightarrow> bool" where
  "visits ns S \<longleftrightarrow> distinct ns \<and> set ns = S"

text \<open>A bus on which the player \<open>A\<close> is gone, and a loop that visits \<open>A\<close> before \<open>B\<close>.\<close>

definition bus_without_A :: bus where
  "bus_without_A n m = (n \<noteq> ''A'')"

definition visit_A_then_B :: "string set \<Rightarrow> string list" where
  "visit_A_then_B S = [''A'', ''B'']"

definition registry_A_B :: registry where
  "registry_A_B = \<lparr>playing = {''A'', ''B''}, not_playing = []\<rparr>"

definition bus_all_up :: bus where
  "bus_all_up n m = True"

definition bus_without_B :: bus where
  "bus_without_B n m = (n \<noteq> ''B'')"

definition visit_B_A_C :: "string set \<Rightarrow> string list" where
  "visit_B_A_C S = [''B'', ''A'', ''C'']"

definition registry_A_B_C :: registry where
  "registry_A_B_C = \<lparr>playing = {''A'', ''B'', ''C''}, not_playing = [''X'']\<rparr>"

definition visit_only_A :: "string set \<Rightarrow> string list" where
  "visit_only_A S = [''A'']"

definition registry_only_A :: registry where
  "registry_only_A = \<lparr>playing = {''A''}, not_playing = [''X'']\<rparr>"

definition visit_none :: "string set \<Rightarrow> string list" where
  "visit_none S = []"

definition registry_X_Y_Z :: registry where
  "registry_X_Y_Z = \<lparr>playing = {}, not_playing = [''X'', ''Y'', ''Z'']\<rparr>"

section \<open>Client side: starting the daemon and delivering a command\<close>

text \<open>The fields of the parsed command line that \<open>entry_point\<close> reads.\<close>

record args =
  call :: "string option"
  no_fork :: bool
  debug :: bool

text \<open>
  \<open>_call_method(method_name)\<close> has one required positional parameter; a call that passes a
  different number of arguments raises \<open>TypeError\<close> before the body runs. The argument list of
  the call site is \<open>argv\<close>. In the body, \<open>daemon m\<close> tells whether the D-Bus call of \<open>m\<close> on the
  daemon returns; the \<open>DBusException\<close> of a failing call is caught and turned into \<open>False\<close>.
\<close>

definition call_method :: "(string \<Rightarrow> bool) \<Rightarrow> string list \<Rightarrow> error + bool" where
  "call_method daemon argv =
     (case argv of [method_name] \<Rightarrow> Inr (daemon method_name) | _ \<Rightarrow> Inl TypeError)"

text \<open>
  \<open>_callback(count=0)\<close>, the function handed to \<open>timeout_add(400, _callback)\<close>: it increments
  its parameter and then evaluates \<open>not (_call_method() or count > 5)\<close>, where
  \<open>_call_method\<close> is called with no argument.
\<close>

definition callback :: "(string \<Rightarrow> bool) \<Rightarrow> nat \<Rightarrow> error + bool" where
  "callback daemon count =
     (let count = count + 1
      in case call_method daemon [] of
           Inl e \<Rightarrow> Inl e
         | Inr ok \<Rightarrow> Inr (\<not> (ok \<or> count > 5)))"

text \<open>
  What the client process does, as a trace: each \<open>_daemon_up()\<close> probe with its answer, the
  fork, each \<open>sleep\<close> with its duration in seconds (the literals of the source read as decimal
  fractions), the registration of the timeout callback with its interval in milliseconds, the
  start of the daemon in this process, and the \<open>_call_method(args.call)\<close> delivery.
\<close>

datatype event =
    DaemonUp bool
  | ForkDaemon bool
  | Sleep rat
  | TimeoutAdd nat
  | StartDaemon
  | CallMethod string

text \<open>
  How the process ends: \<open>exit\<close> with a status, or never, inside \<open>MainLoop().run()\<close>.
\<close>

datatype ending = Exit nat | Serving

definition schedule :: "rat list" where
  "schedule = [0.2, 0.3, 0.4, 0.4, 1.2, 2.3]"

text \<open>
  The \<open>for wait in (...)\<close> loop with its \<open>else\<close> branch. \<open>up k\<close> is the answer of the \<open>k\<close>-th
  \<open>_daemon_up()\<close> probe of this process, counted from 0. The flag returned is \<open>True\<close> when the
  loop was left by \<open>break\<close> and \<open>False\<close> when the tuple was exhausted, which is when the
  \<open>else\<close> branch runs.
\<close>

fun wait_for_daemon :: "(nat \<Rightarrow> bool) \<Rightarrow> nat \<Rightarrow> rat list \<Rightarrow> event list \<times> bool" where
  "wait_for_daemon up k [] = ([], False)"
| "wait_for_daemon up k (w # ws) =
     (if up k then ([Sleep w, DaemonUp True, Sleep 0.2], True)
      else (case wait_for_daemon up (Suc k) ws of
              (es, left) \<Rightarrow> (Sleep w # DaemonUp False # es, left)))"

text \<open>The tail of \<open>entry_point\<close>: deliver the command if one was given, then \<open>exit()\<close>.\<close>

definition deliver_and_exit :: "args \<Rightarrow> event list \<times> ending" where
  "deliver_and_exit a =
     (case call a of None \<Rightarrow> ([], Exit 0) | Some m \<Rightarrow> ([CallMethod m], Exit 0))"

text \<open>
  \<open>entry_point(options, nofork)\<close>. The first test is the last one of \<open>_parse_args\<close>, which
  exits with status 1 when a method is given together with \<open>--no-fork\<close>.
\<close>

definition entry_point :: "(nat \<Rightarrow> bool) \<Rightarrow> args \<Rightarrow> bool \<Rightarrow> event list \<times> ending" where
  "entry_point up a nofork =
     (if no_fork a \<and> call a \<noteq> None then ([], Exit 1)
      else if \<not> up 0 then
        (if nofork \<or> no_fork a then
           (DaemonUp False # (if call a \<noteq> None then [TimeoutAdd 400] else []) @ [StartDaemon],
            Serving)
         else
           (case wait_for_daemon up (Suc 0) schedule of
              (es, True) \<Rightarrow>
                (case deliver_and_exit a of
                   (ds, e) \<Rightarrow> (DaemonUp False # ForkDaemon (debug a) # es @ ds, e))
            | (es, False) \<Rightarrow> (DaemonUp False # ForkDaemon (debug a) # es, Exit 1)))
      else (case deliver_and_exit a of (ds, e) \<Rightarrow> (DaemonUp True # ds, e)))"

definition never_up :: "nat \<Rightarrow> bool" where
  "never_up k = False"

definition args_PlayPause :: args where
  "args_PlayPause = \<lparr>call = Some ''PlayPause'', no_fork = False, debug = False\<rparr>"

section \<open>Properties of the registry\<close>

lemma list_remove_cases:
  "list_remove x xs = Inr ys \<longleftrightarrow> x \<in> set xs \<and> ys = remove1 x xs"
  by (auto simp: list_remove_def)

lemma markas_playing_inv: "I1 st \<and> I2 st \<Longrightarrow> I1 (markas_playing name st) \<and> I2 (markas_playing name st)"
  by (auto simp: I1_def I2_def markas_playing_def list_remove_def Let_def)

lemma markas_not_playing_inv:
  "I1 st \<and> I2 st \<Longrightarrow> I1 (markas_not_playing name st) \<and> I2 (markas_not_playing name st)"
  by (auto simp: I1_def I2_def markas_not_playing_def Let_def)

lemma remove_inv: "I1 st \<and> I2 st \<Longrightarrow> I1 (remove name st) \<and> I2 (remove name st)"
  by (auto simp: I1_def I2_def remove_def list_remove_def dest: notin_set_remove1)

lemma apply_call_inv: "I1 st \<and> I2 st \<Longrightarrow> I1 (apply_call st c) \<and> I2 (apply_call st c)"
  by (cases c) (simp_all add: markas_playing_inv markas_not_playing_inv remove_inv)

lemma foldl_apply_call_inv:
  "I1 st \<and> I2 st \<Longrightarrow> I1 (foldl apply_call st cs) \<and> I2 (foldl apply_call st cs)"
proof (induction cs arbitrary: st)
  case Nil
  then show ?case by simp
next
  case (Cons c cs)
  from Cons.prems have "I1 (apply_call st c) \<and> I2 (apply_call st c)"
    by (rule apply_call_inv)
  then show ?case using Cons.IH by simp
qed

text \<open>
  Claim C6. Starting from the empty registry, after any finite sequence of
  \<open>markas_playing\<close>, \<open>markas_not_playing\<close> and \<open>remove\<close> calls no name is in both containers
  (I1) and \<open>not_playing\<close> holds no name twice (I2). The sequence is arbitrary, so the
  statement covers the state after each call of a longer run: every prefix of a sequence is
  a sequence.
\<close>

theorem C6_invariants_hold: "I1 (run_calls cs) \<and> I2 (run_calls cs)"
  unfolding run_calls_def
  by (rule foldl_apply_call_inv) (simp add: I1_def I2_def empty_registry_def)

lemma remove_listed:
  "name \<in> set (not_playing st) \<Longrightarrow>
   remove name st = st\<lparr>not_playing := remove1 name (not_playing st), playing := playing st - {name}\<rparr>"
  by (simp add: remove_def list_remove_def)

lemma remove_unlisted: "name \<notin> set (not_playing st) \<Longrightarrow> remove name st = st"
  by (simp add: remove_def list_remove_def)

text \<open>
  Claim C7. When \<open>name\<close> is already in \<open>not_playing\<close>, \<open>markas_not_playing name\<close> leaves the
  \<open>not_playing\<close> list as it was, so \<open>name\<close> keeps its position and is not moved to the tail,
  and \<open>playing\<close> afterwards is the old \<open>playing\<close> without \<open>name\<close>.
\<close>

theorem C7_remark_keeps_position:
  "name \<in> set (not_playing st) \<Longrightarrow>
   not_playing (markas_not_playing name st) = not_playing st
   \<and> playing (markas_not_playing name st) = playing st - {name}
   \<and> name \<notin> playing (markas_not_playing name st)"
  by (simp add: markas_not_playing_def Let_def)

theorem C7_remark_keeps_position_witness:
  "''A'' \<in> set (not_playing \<lparr>playing = {''P''}, not_playing = [''A'', ''B'']\<rparr>)
   \<and> not_playing (markas_not_playing ''A'' \<lparr>playing = {''P''}, not_playing = [''A'', ''B'']\<rparr>)
       = [''A'', ''B'']
   \<and> ''A'' \<notin> playing (markas_not_playing ''A'' \<lparr>playing = {''P''}, not_playing = [''A'', ''B'']\<rparr>)"
  using C7_remark_keeps_position [of "''A''" "\<lparr>playing = {''P''}, not_playing = [''A'', ''B'']\<rparr>"]
  by simp

text \<open>
  Claim C3 says that \<open>remove\<close> deletes a name from whichever container holds it. The code
  does so only for a name held by \<open>not_playing\<close>. The player \<open>:1.5\<close> reports
  \<open>PlaybackStatus = Playing\<close> to the empty registry and is put into \<open>playing\<close>; the \<open>remove\<close>
  of \<open>:1.5\<close> then leaves the registry as it was, with \<open>:1.5\<close> still in \<open>playing\<close>:
  \<open>list.remove\<close> raises, and the \<open>set.discard\<close> behind it in the \<open>try\<close> block is skipped.
\<close>

theorem C3_remove_keeps_playing_member:
  "handle_signal_properties_changed MPRIS_INTERFACE [''PlaybackStatus'' \<mapsto> ''Playing''] []
     '':1.5'' empty_registry = \<lparr>playing = {'':1.5''}, not_playing = []\<rparr>
   \<and> remove '':1.5'' \<lparr>playing = {'':1.5''}, not_playing = []\<rparr>
       = \<lparr>playing = {'':1.5''}, not_playing = []\<rparr>"
  by (simp add: handle_signal_properties_changed_def markas_playing_def remove_def
      list_remove_def empty_registry_def)

text \<open>
  Claim C9. A properties-changed signal whose interface is not the media-player interface, or
  whose dictionary of changed properties has no \<open>PlaybackStatus\<close> key, leaves the registry
  as it was: neither \<open>playing\<close> nor \<open>not_playing\<close> changes.
\<close>

theorem C9_signal_without_status_is_noop:
  "interface \<noteq> MPRIS_INTERFACE \<or> ''PlaybackStatus'' \<notin> dom props \<Longrightarrow>
   handle_signal_properties_changed interface props sig sender st = st"
  by (auto simp: handle_signal_properties_changed_def)

theorem C9_signal_without_status_is_noop_witness:
  "''PlaybackStatus'' \<notin> dom [''Volume'' \<mapsto> ''1'']
   \<and> handle_signal_properties_changed MPRIS_INTERFACE [''Volume'' \<mapsto> ''1''] [] '':1.7''
         registry_X_Y_Z = registry_X_Y_Z"
  using C9_signal_without_status_is_noop
    [of MPRIS_INTERFACE "[''Volume'' \<mapsto> ''1'']" "[]" "'':1.7''" registry_X_Y_Z]
  by simp

section \<open>Properties of the dispatch\<close>

lemma call_each_all_ok:
  "\<forall>n\<in>set ns. bus n m \<Longrightarrow> call_each bus ns m = (map (\<lambda>n. (n, m)) ns, None)"
  by (induction ns) simp_all

lemma call_each_stops:
  "\<forall>n\<in>set pre. bus n m \<Longrightarrow> \<not> bus f m \<Longrightarrow>
   call_each bus (pre @ f # post) m = (map (\<lambda>n. (n, m)) (pre @ [f]), Some DBusException)"
  by (induction pre) simp_all

lemma call_each_subset: "set (fst (call_each bus ns m)) \<subseteq> (\<lambda>n. (n, m)) ` set ns"
  by (induction ns) (auto split: prod.splits)

lemma call_each_distinct: "distinct ns \<Longrightarrow> distinct (fst (call_each bus ns m))"
proof (induction ns)
  case Nil
  then show ?case by simp
next
  case (Cons n ns)
  have "(n, m) \<notin> set (fst (call_each bus ns m))"
    using Cons.prems call_each_subset [of bus ns m] by auto
  then show ?case using Cons by (auto split: prod.splits)
qed

lemma visits_card: "visits ns S \<Longrightarrow> card S = length ns"
  by (auto simp: visits_def distinct_card)

lemma visits_single:
  assumes "visits ns S" and "card S = 1"
  shows "ns = [the_elem S]"
proof -
  from assms have "length ns = 1" by (simp add: visits_card)
  then obtain x where ns: "ns = [x]" by (cases ns) auto
  with assms(1) have "S = {x}" by (simp add: visits_def)
  with ns show ?thesis by simp
qed

lemma visits_nonempty_card: "visits ns S \<Longrightarrow> ns \<noteq> [] \<Longrightarrow> card S > 0"
  by (cases ns) (auto simp: visits_def card_gt_0_iff)

lemma PlayPause_broadcast:
  assumes "visits (visit (playing st)) (playing st)" and "playing st \<noteq> {}"
  shows "issued (PlayPause bus visit st) = fst (call_each bus (visit (playing st)) ''Pause'')"
proof -
  from assms have "visit (playing st) \<noteq> []" by (auto simp: visits_def)
  with assms(1) have "card (playing st) > 0" by (rule visits_nonempty_card)
  then show ?thesis by (simp add: PlayPause_def issued_def call_on_all_playing_def)
qed

lemma call_each_prefix:
  "fst (call_each bus ns m) =
     map (\<lambda>n. (n, m)) (takeWhile (\<lambda>n. bus n m) ns @ take 1 (dropWhile (\<lambda>n. bus n m) ns))"
  by (induction ns) (auto split: prod.splits)

text \<open>
  Claim C1 says that \<open>PlayPause\<close> sends a \<open>Pause\<close> call to every member of a non-empty
  \<open>playing\<close>, for every registry state. The broadcast is a bare loop, and a call that raises
  ends it: with \<open>playing = {A, B, C}\<close>, the loop visiting \<open>B\<close> first and the call on \<open>B\<close>
  raising, the only call issued is the one on \<open>B\<close>; the members \<open>A\<close> and \<open>C\<close> receive none.
\<close>

theorem C1_PlayPause_misses_members:
  "visits (visit_B_A_C (playing registry_A_B_C)) (playing registry_A_B_C)
   \<and> playing registry_A_B_C \<noteq> {}
   \<and> ''A'' \<in> playing registry_A_B_C
   \<and> ''C'' \<in> playing registry_A_B_C
   \<and> issued (PlayPause bus_without_B visit_B_A_C registry_A_B_C) = [(''B'', ''Pause'')]
   \<and> (''A'', ''Pause'') \<notin> set (issued (PlayPause bus_without_B visit_B_A_C registry_A_B_C))
   \<and> (''C'', ''Pause'') \<notin> set (issued (PlayPause bus_without_B visit_B_A_C registry_A_B_C))"
proof -
  have v: "visits (visit_B_A_C (playing registry_A_B_C)) (playing registry_A_B_C)"
    by (auto simp: visits_def visit_B_A_C_def registry_A_B_C_def)
  have c: "card (playing registry_A_B_C) > 0"
    by (simp add: registry_A_B_C_def)
  have i: "issued (PlayPause bus_without_B visit_B_A_C registry_A_B_C) = [(''B'', ''Pause'')]"
    using c by (simp add: PlayPause_def issued_def call_on_all_playing_def visit_B_A_C_def
        bus_without_B_def)
  have m: "playing registry_A_B_C \<noteq> {}" "''A'' \<in> playing registry_A_B_C"
    "''C'' \<in> playing registry_A_B_C"
    by (simp_all add: registry_A_B_C_def)
  show ?thesis using v i m by simp
qed

text \<open>
  Claim C1 as amended. Let the \<open>for\<close> loop visit every member of \<open>playing\<close> once. When
  \<open>playing\<close> is not empty, \<open>PlayPause\<close> issues \<open>Pause\<close> calls and nothing else, one after
  another in the order of the visit: on every member visited before the first one whose call
  raises, and on that one. So every call is a \<open>Pause\<close> on a member of \<open>playing\<close>, no member is
  called twice, and when no \<open>Pause\<close> call raises the members called are exactly the members of
  \<open>playing\<close>. When \<open>playing\<close> is empty and \<open>not_playing\<close> is not, the only call issued is
  \<open>Play\<close> on the last element of \<open>not_playing\<close>.
\<close>

theorem C1_PlayPause_targets:
  assumes "visits (visit (playing st)) (playing st)"
  shows "(playing st \<noteq> {} \<longrightarrow>
            issued (PlayPause bus visit st) =
              map (\<lambda>n. (n, ''Pause''))
                (takeWhile (\<lambda>n. bus n ''Pause'') (visit (playing st))
                 @ take 1 (dropWhile (\<lambda>n. bus n ''Pause'') (visit (playing st))))
          \<and> set (issued (PlayPause bus visit st)) \<subseteq> (\<lambda>n. (n, ''Pause'')) ` playing st
          \<and> distinct (issued (PlayPause bus visit st))
          \<and> ((\<forall>n\<in>playing st. bus n ''Pause'') \<longrightarrow>
               set (issued (PlayPause bus visit st)) = (\<lambda>n. (n, ''Pause'')) ` playing st))
       \<and> (playing st = {} \<and> not_playing st \<noteq> [] \<longrightarrow>
            issued (PlayPause bus visit st) = [(last (not_playing st), ''Play'')])"
proof (intro conjI impI)
  let ?ns = "visit (playing st)"
  from assms have d: "distinct ?ns" and s: "set ?ns = playing st"
    by (simp_all add: visits_def)
  {
    assume ne: "playing st \<noteq> {}"
    have eq: "issued (PlayPause bus visit st) = fst (call_each bus ?ns ''Pause'')"
      using assms ne by (rule PlayPause_broadcast)
    show "issued (PlayPause bus visit st) =
              map (\<lambda>n. (n, ''Pause''))
                (takeWhile (\<lambda>n. bus n ''Pause'') (visit (playing st))
                 @ take 1 (dropWhile (\<lambda>n. bus n ''Pause'') (visit (playing st))))"
      using eq call_each_prefix [of bus ?ns "''Pause''"] by simp
    show "set (issued (PlayPause bus visit st)) \<subseteq> (\<lambda>n. (n, ''Pause'')) ` playing st"
      using call_each_subset [of bus ?ns "''Pause''"] s eq by simp
    show "distinct (issued (PlayPause bus visit st))"
      using call_each_distinct [OF d] eq by simp
    assume "\<forall>n\<in>playing st. bus n ''Pause''"
    then have "\<forall>n\<in>set ?ns. bus n ''Pause''" using s by simp
    then have "call_each bus ?ns ''Pause'' = (map (\<lambda>n. (n, ''Pause'')) ?ns, None)"
      by (rule call_each_all_ok)
    then show "set (issued (PlayPause bus visit st)) = (\<lambda>n. (n, ''Pause'')) ` playing st"
      using eq s by simp
  }
  assume "playing st = {} \<and> not_playing st \<noteq> []"
  then show "issued (PlayPause bus visit st) = [(last (not_playing st), ''Play'')]"
    by (simp add: PlayPause_def issued_def call_on_head_not_playing_def Let_def)
qed

theorem C1_PlayPause_targets_witness:
  "visits (visit_A_then_B (playing registry_A_B)) (playing registry_A_B)
   \<and> playing registry_A_B \<noteq> {}
   \<and> bus_all_up ''A'' ''Pause'' \<and> bus_all_up ''B'' ''Pause''
   \<and> issued (PlayPause bus_all_up visit_A_then_B registry_A_B)
        = [(''A'', ''Pause''), (''B'', ''Pause'')]
   \<and> set (issued (PlayPause bus_all_up visit_A_then_B registry_A_B))
        = {(''A'', ''Pause''), (''B'', ''Pause'')}
   \<and> visits (visit_B_A_C (playing registry_A_B_C)) (playing registry_A_B_C)
   \<and> playing registry_A_B_C \<noteq> {}
   \<and> issued (PlayPause bus_without_A visit_B_A_C registry_A_B_C)
        = [(''B'', ''Pause''), (''A'', ''Pause'')]
   \<and> visits (visit_none (playing registry_X_Y_Z)) (playing registry_X_Y_Z)
   \<and> playing registry_X_Y_Z = {} \<and> not_playing registry_X_Y_Z \<noteq> []
   \<and> issued (PlayPause bus_all_up visit_none registry_X_Y_Z) = [(''Z'', ''Play'')]"
proof -
  have v1: "visits (visit_A_then_B (playing registry_A_B)) (playing registry_A_B)"
    by (auto simp: visits_def visit_A_then_B_def registry_A_B_def)
  have v2: "visits (visit_none (playing registry_X_Y_Z)) (playing registry_X_Y_Z)"
    by (simp add: visits_def visit_none_def registry_X_Y_Z_def)
  have v3: "visits (visit_B_A_C (playing registry_A_B_C)) (playing registry_A_B_C)"
    by (auto simp: visits_def visit_B_A_C_def registry_A_B_C_def)
  have ne: "playing registry_A_B \<noteq> {}" "playing registry_A_B_C \<noteq> {}"
    by (simp_all add: registry_A_B_def registry_A_B_C_def)
  have ok: "\<forall>n\<in>playing registry_A_B. bus_all_up n ''Pause''" by (simp add: bus_all_up_def)
  have e: "playing registry_X_Y_Z = {} \<and> not_playing registry_X_Y_Z \<noteq> []"
    by (simp add: registry_X_Y_Z_def)
  have img: "(\<lambda>n. (n, ''Pause'')) ` playing registry_A_B = {(''A'', ''Pause''), (''B'', ''Pause'')}"
    by (simp add: registry_A_B_def)
  have l: "last (not_playing registry_X_Y_Z) = ''Z''" by (simp add: registry_X_Y_Z_def)
  have p1: "takeWhile (\<lambda>n. bus_all_up n ''Pause'') (visit_A_then_B (playing registry_A_B))
            @ take 1 (dropWhile (\<lambda>n. bus_all_up n ''Pause'') (visit_A_then_B (playing registry_A_B)))
            = [''A'', ''B'']"
    by (simp add: bus_all_up_def visit_A_then_B_def)
  have p3: "takeWhile (\<lambda>n. bus_without_A n ''Pause'') (visit_B_A_C (playing registry_A_B_C))
            @ take 1 (dropWhile (\<lambda>n. bus_without_A n ''Pause'') (visit_B_A_C (playing registry_A_B_C)))
            = [''B'', ''A'']"
    by (simp add: bus_without_A_def visit_B_A_C_def)
  have a: "issued (PlayPause bus_all_up visit_A_then_B registry_A_B)
             = [(''A'', ''Pause''), (''B'', ''Pause'')]
           \<and> set (issued (PlayPause bus_all_up visit_A_then_B registry_A_B))
             = {(''A'', ''Pause''), (''B'', ''Pause'')}"
    using v1 ne(1) ok img p1
      C1_PlayPause_targets [where visit = visit_A_then_B and st = registry_A_B and bus = bus_all_up]
    by simp
  have b: "issued (PlayPause bus_without_A visit_B_A_C registry_A_B_C)
             = [(''B'', ''Pause''), (''A'', ''Pause'')]"
    using v3 ne(2) p3
      C1_PlayPause_targets [where visit = visit_B_A_C and st = registry_A_B_C and bus = bus_without_A]
    by simp
  have c: "issued (PlayPause bus_all_up visit_none registry_X_Y_Z) = [(''Z'', ''Play'')]"
    using v2 e l
      C1_PlayPause_targets [where visit = visit_none and st = registry_X_Y_Z and bus = bus_all_up]
    by simp
  show ?thesis using v1 v2 v3 ne e a b c by (simp add: bus_all_up_def)
qed

text \<open>
  Claim C2 says that a failing call in a \<open>PlayPause\<close> broadcast does not keep the other
  members of \<open>playing\<close> from receiving their \<open>Pause\<close>. The loop has no handler: with
  \<open>playing = {A, B}\<close>, the loop visiting \<open>A\<close> first and the call on \<open>A\<close> raising, the only call
  issued is the one on \<open>A\<close>, and \<open>B\<close> receives none.
\<close>

theorem C2_broadcast_not_isolated:
  "visits (visit_A_then_B (playing registry_A_B)) (playing registry_A_B)
   \<and> card (playing registry_A_B) = 2
   \<and> \<not> bus_without_A ''A'' ''Pause''
   \<and> ''B'' \<in> playing registry_A_B
   \<and> issued (PlayPause bus_without_A visit_A_then_B registry_A_B) = [(''A'', ''Pause'')]
   \<and> (''B'', ''Pause'') \<notin> set (issued (PlayPause bus_without_A visit_A_then_B registry_A_B))"
  by (simp add: visits_def visit_A_then_B_def registry_A_B_def bus_without_A_def PlayPause_def
      issued_def call_on_all_playing_def)

text \<open>
  Claim C2 as amended. In a \<open>PlayPause\<close> broadcast the \<open>Pause\<close> calls are issued one after
  another in the order the loop visits \<open>playing\<close>, and the first failing call ends the
  broadcast with its exception: the members visited before the failing one have received
  their \<open>Pause\<close>, the failing call has been issued, and the members visited after it receive
  no call. The registry is not changed.
\<close>

theorem C2_broadcast_stops_at_failure:
  assumes v: "visits (visit (playing st)) (playing st)"
    and split: "visit (playing st) = pre @ f # post"
    and ok: "\<forall>n\<in>set pre. bus n ''Pause''"
    and fails: "\<not> bus f ''Pause''"
  shows "PlayPause bus visit st =
           ((map (\<lambda>n. (n, ''Pause'')) (pre @ [f]), Some DBusException), st)
         \<and> (\<forall>n\<in>set pre. (n, ''Pause'') \<in> set (issued (PlayPause bus visit st)))
         \<and> (\<forall>n\<in>set post. (n, ''Pause'') \<notin> set (issued (PlayPause bus visit st)))"
proof -
  have "visit (playing st) \<noteq> []" using split by simp
  with v have "card (playing st) > 0" by (rule visits_nonempty_card)
  then have eq: "PlayPause bus visit st =
      ((map (\<lambda>n. (n, ''Pause'')) (pre @ [f]), Some DBusException), st)"
    using call_each_stops [where pre = pre and bus = bus and m = "''Pause''" and f = f and post = post]
      ok fails split
    by (simp add: PlayPause_def call_on_all_playing_def)
  have d: "distinct (pre @ f # post)" using v split by (simp add: visits_def)
  have "\<forall>n\<in>set post. n \<notin> set (pre @ [f])" using d by auto
  then show ?thesis using eq by (auto simp: issued_def)
qed

theorem C2_broadcast_stops_at_failure_witness:
  "visits (visit_B_A_C (playing registry_A_B_C)) (playing registry_A_B_C)
   \<and> visit_B_A_C (playing registry_A_B_C) = [''B''] @ ''A'' # [''C'']
   \<and> bus_without_A ''B'' ''Pause''
   \<and> \<not> bus_without_A ''A'' ''Pause''
   \<and> PlayPause bus_without_A visit_B_A_C registry_A_B_C =
        (([(''B'', ''Pause''), (''A'', ''Pause'')], Some DBusException), registry_A_B_C)
   \<and> (''C'', ''Pause'') \<notin> set (issued (PlayPause bus_without_A visit_B_A_C registry_A_B_C))"
proof -
  have v: "visits (visit_B_A_C (playing registry_A_B_C)) (playing registry_A_B_C)"
    by (auto simp: visits_def visit_B_A_C_def registry_A_B_C_def)
  have s: "visit_B_A_C (playing registry_A_B_C) = [''B''] @ ''A'' # [''C'']"
    by (simp add: visit_B_A_C_def)
  have ok: "\<forall>n\<in>set [''B'']. bus_without_A n ''Pause''"
    by (simp add: bus_without_A_def)
  have f: "\<not> bus_without_A ''A'' ''Pause''"
    by (simp add: bus_without_A_def)
  show ?thesis
    using v s ok f
      C2_broadcast_stops_at_failure [where visit = visit_B_A_C and st = registry_A_B_C
        and bus = bus_without_A and pre = "[''B'']" and f = "''A''" and post = "[''C'']"]
    by (simp add: issued_def)
qed

text \<open>
  Claim C5. Let the \<open>for\<close> loop visit every member of \<open>playing\<close> once. \<open>Next\<close> issues the
  single call \<open>Next\<close>, and \<open>Previous\<close> the single call \<open>Previous\<close>, on the one member of
  \<open>playing\<close> when \<open>playing\<close> has exactly one member; with any other number of members,
  none or two and more, neither issues a call.
\<close>

theorem C5_Next_Previous_single_target:
  assumes "visits (visit (playing st)) (playing st)"
  shows "(card (playing st) = 1 \<longrightarrow>
            issued (Next bus visit st) = [(the_elem (playing st), ''Next'')]
          \<and> issued (Previous bus visit st) = [(the_elem (playing st), ''Previous'')])
       \<and> (card (playing st) \<noteq> 1 \<longrightarrow>
            issued (Next bus visit st) = [] \<and> issued (Previous bus visit st) = [])"
proof -
  have "card (playing st) = 1 \<Longrightarrow> visit (playing st) = [the_elem (playing st)]"
    using assms by (rule visits_single)
  then show ?thesis
    by (simp add: Next_def Previous_def issued_def call_on_one_playing_def
        call_on_all_playing_def)
qed

theorem C5_Next_Previous_single_target_witness:
  "visits (visit_only_A (playing registry_only_A)) (playing registry_only_A)
   \<and> card (playing registry_only_A) = 1
   \<and> issued (Next bus_all_up visit_only_A registry_only_A) = [(''A'', ''Next'')]
   \<and> issued (Previous bus_all_up visit_only_A registry_only_A) = [(''A'', ''Previous'')]
   \<and> visits (visit_A_then_B (playing registry_A_B)) (playing registry_A_B)
   \<and> card (playing registry_A_B) \<noteq> 1
   \<and> issued (Next bus_all_up visit_A_then_B registry_A_B) = []
   \<and> issued (Previous bus_all_up visit_A_then_B registry_A_B) = []"
proof -
  have v1: "visits (visit_only_A (playing registry_only_A)) (playing registry_only_A)"
    by (simp add: visits_def visit_only_A_def registry_only_A_def)
  have c1: "card (playing registry_only_A) = 1" "the_elem (playing registry_only_A) = ''A''"
    by (simp_all add: registry_only_A_def)
  have v2: "visits (visit_A_then_B (playing registry_A_B)) (playing registry_A_B)"
    by (auto simp: visits_def visit_A_then_B_def registry_A_B_def)
  have c2: "card (playing registry_A_B) \<noteq> 1"
    by (simp add: registry_A_B_def)
  show ?thesis
    using v1 v2 c1 c2
      C5_Next_Previous_single_target
        [where visit = visit_only_A and st = registry_only_A and bus = bus_all_up]
      C5_Next_Previous_single_target
        [where visit = visit_A_then_B and st = registry_A_B and bus = bus_all_up]
    by simp
qed

text \<open>
  Claim C10. With \<open>playing\<close> and \<open>not_playing\<close> both empty, \<open>PlayPause\<close> issues no call,
  raises nothing and returns the registry it was given.
\<close>

theorem C10_PlayPause_on_empty_registry:
  "playing st = {} \<Longrightarrow> not_playing st = [] \<Longrightarrow> PlayPause bus visit st = (([], None), st)"
  by (simp add: PlayPause_def call_on_head_not_playing_def)

theorem C10_PlayPause_on_empty_registry_witness:
  "playing empty_registry = {} \<and> not_playing empty_registry = []
   \<and> PlayPause bus_all_up visit_none empty_registry = (([], None), empty_registry)"
  using C10_PlayPause_on_empty_registry [of empty_registry bus_all_up visit_none]
  by (simp add: empty_registry_def)

section \<open>Properties of the client side\<close>



text \<open>
  Claim C4 says that the deferred delivery is retried until an attempt succeeds, at most five
  more times. With a method given and \<open>nofork\<close> true, \<open>entry_point\<close> registers the callback
  and starts the daemon in its own process. Whatever the daemon answers and whatever count
  the callback is given, the callback raises \<open>TypeError\<close>: \<open>_call_method\<close> is called without
  its argument, the command is never sent, and no attempt can succeed.
\<close>

theorem C4_callback_raises_TypeError:
  "entry_point never_up args_PlayPause True = ([DaemonUp False, TimeoutAdd 400, StartDaemon], Serving)
   \<and> callback daemon count = Inl TypeError"
  by (simp add: entry_point_def never_up_def args_PlayPause_def callback_def call_method_def)

end
